theory Spec2Isabelle
  imports Complex_Main "HOL-Library.Sublist"
begin

section \<open>Strings and paths\<close>

text \<open>
  Paths are modelled in the form \<^verbatim>\<open>os.path.abspath\<close> returns them, split at the
  separators: a list of components whose head is the drive (or root) and whose last element
  is the base name. Characters are bytes; \<^verbatim>\<open>str.lower\<close> is modelled on the ASCII letters.
\<close>

type_synonym path = "string list"

definition lower_char :: "char \<Rightarrow> char" where
  "lower_char c =
     (let n = (of_char c :: nat) in if 65 \<le> n \<and> n \<le> 90 then char_of (n + 32) else c)"

definition lower :: "string \<Rightarrow> string" where
  "lower s = map lower_char s"

definition path_lower :: "path \<Rightarrow> path" where
  "path_lower p = map lower p"

definition basename :: "path \<Rightarrow> string" where
  "basename p = (case p of [] \<Rightarrow> [] | [d] \<Rightarrow> [] | _ \<Rightarrow> last p)"

definition dirname :: "path \<Rightarrow> path" where
  "dirname p = (case p of [] \<Rightarrow> [] | [d] \<Rightarrow> [d] | _ \<Rightarrow> butlast p)"

definition join :: "path \<Rightarrow> string \<Rightarrow> path" where
  "join d name = d @ [name]"

fun common_len :: "'a list \<Rightarrow> 'a list \<Rightarrow> nat" where
  "common_len (x # xs) (y # ys) = (if x = y then Suc (common_len xs ys) else 0)"
| "common_len xs ys = 0"

text \<open>
  \<^verbatim>\<open>os.path.commonpath([a, b])\<close> as the Windows implementation computes it: the
  components are compared with their case folded, the result is cut out of the first
  argument, and paths on different drives (or an empty path) raise \<^verbatim>\<open>ValueError\<close>,
  which is the value \<open>None\<close>.
\<close>

definition commonpath :: "path \<Rightarrow> path \<Rightarrow> path option" where
  "commonpath a b =
     (case a of [] \<Rightarrow> None
      | da # ca \<Rightarrow>
         (case b of [] \<Rightarrow> None
          | db # cb \<Rightarrow>
             if lower da \<noteq> lower db then None
             else Some (da # take (common_len (map lower ca) (map lower cb)) ca)))"

definition is_digit :: "char \<Rightarrow> bool" where
  "is_digit c = (let n = (of_char c :: nat) in 48 \<le> n \<and> n \<le> 57)"

text \<open>\<^verbatim>\<open>re.match(r"^\d+_", os.path.basename(path)) is not None\<close>\<close>

definition looks_like_quarantine_name :: "path \<Rightarrow> bool" where
  "looks_like_quarantine_name p =
     (let b = basename p in
      takeWhile is_digit b \<noteq> [] \<and>
      (case dropWhile is_digit b of [] \<Rightarrow> False | c # cs \<Rightarrow> c = CHR ''_''))"

definition digit_char :: "nat \<Rightarrow> char" where
  "digit_char n = ''0123456789'' ! (n mod 10)"

fun str_nat :: "nat \<Rightarrow> string" where
  "str_nat n = (if n < 10 then [digit_char n] else str_nat (n div 10) @ [digit_char (n mod 10)])"

declare str_nat.simps [simp del]

text \<open>\<^verbatim>\<open>str(i)\<close> for a Python integer, and \<^verbatim>\<open>int(x)\<close> for a float (truncation towards zero).\<close>

definition str_int :: "int \<Rightarrow> string" where
  "str_int i = (if i < 0 then CHR ''-'' # str_nat (nat (- i)) else str_nat (nat i))"

definition py_int :: "real \<Rightarrow> int" where
  "py_int x = (if 0 \<le> x then \<lfloor>x\<rfloor> else \<lceil>x\<rceil>)"

section \<open>The file system\<close>

text \<open>
  A file has its content and a flag telling whether another process holds it locked (then
  opening and moving it raise \<^verbatim>\<open>PermissionError\<close>). The content is the file's bytes.
\<close>

datatype node = Dir | File (content: string) (locked: bool)

type_synonym filesystem = "path \<rightharpoonup> node"

definition exists_path :: "filesystem \<Rightarrow> path \<Rightarrow> bool" where
  "exists_path d p = (d p \<noteq> None)"

definition isdir :: "filesystem \<Rightarrow> path \<Rightarrow> bool" where
  "isdir d p = (d p = Some Dir)"

text \<open>\<^verbatim>\<open>os.path.getsize\<close>; \<open>None\<close> is \<^verbatim>\<open>OSError\<close>.\<close>

definition getsize :: "filesystem \<Rightarrow> path \<Rightarrow> nat option" where
  "getsize d p =
     (case d p of None \<Rightarrow> None | Some Dir \<Rightarrow> Some 0 | Some (File c l) \<Rightarrow> Some (length c))"

text \<open>\<^verbatim>\<open>open(path)\<close> for reading: the content that can be read; \<open>None\<close> is \<^verbatim>\<open>OSError\<close>.\<close>

definition open_read :: "filesystem \<Rightarrow> path \<Rightarrow> string option" where
  "open_read d p =
     (case d p of None \<Rightarrow> None | Some Dir \<Rightarrow> None
      | Some (File c l) \<Rightarrow> if l then None else Some c)"

definition is_locked :: "node \<Rightarrow> bool" where
  "is_locked n = (case n of Dir \<Rightarrow> False | File c l \<Rightarrow> l)"

text \<open>
  \<^verbatim>\<open>shutil.move(src, dst)\<close>; \<open>None\<close> is an exception. A destination that is an existing
  directory receives the source under its base name and must not hold that name yet; the
  source must exist and not be locked, the directory of the final destination must exist,
  and a directory cannot be moved into itself. The moved node takes everything below it
  along and replaces a file at the destination.
\<close>

definition shutil_move :: "filesystem \<Rightarrow> path \<Rightarrow> path \<Rightarrow> filesystem option" where
  "shutil_move d src dst =
     (case d src of
        None \<Rightarrow> None
      | Some n \<Rightarrow>
          if isdir d dst \<and> src \<noteq> dst \<and> exists_path d (join dst (basename src)) then None
          else
            let real_dst = (if isdir d dst \<and> src \<noteq> dst then join dst (basename src) else dst)
            in if src = real_dst then Some d
               else if is_locked n then None
               else if \<not> isdir d (dirname real_dst) then None
               else if n = Dir \<and> prefix src real_dst then None
               else Some (\<lambda>q. if prefix real_dst q then d (src @ drop (length real_dst) q)
                               else if prefix src q then None
                               else d q))"

section \<open>Configuration, alerts and the agent's state\<close>

record config =
  WATCH_FOLDER :: path
  WATCH_PATHS :: "path list"
  QUARANTINE_FOLDER :: path
  TEMP_TEST_FOLDER :: path

text \<open>
  An alert as \<^verbatim>\<open>_handle_file\<close> builds it. The time stamp is kept as the clock reading
  and the size as the byte count (the source formats both as text); an origin of \<open>None\<close>
  is the source's \<^verbatim>\<open>"unknown"\<close>, and an alert loaded from an older state file may lack
  the original path.
\<close>

record alert =
  alert_file :: path
  alert_rule :: string
  alert_time :: real
  alert_status :: string
  alert_origin :: "path option"
  alert_original_path :: "path option"
  alert_file_size :: "nat option"

record dlp_state =
  policy_mode :: "string option"
  whitelist :: "path list"
  alerts :: "alert list"

text \<open>
  The world the handlers run in: the files on disk, the clock, the cache of recently
  processed paths, the state dictionary and the last state written to the state file.
  \<^verbatim>\<open>time.sleep\<close> is the only operation that lets time pass.
\<close>

record world =
  disk :: filesystem
  clock :: real
  processed_cache :: "path \<rightharpoonup> real"
  state :: dlp_state
  state_file :: "dlp_state option"

definition save_state :: "world \<Rightarrow> world" where
  "save_state w = w\<lparr>state_file := Some (state w)\<rparr>"

definition sleep :: "real \<Rightarrow> world \<Rightarrow> world" where
  "sleep s w = w\<lparr>clock := clock w + s\<rparr>"

text \<open>\<^verbatim>\<open>add_alert\<close>: insert at the front, keep the first 200, save.\<close>

definition add_alert :: "alert \<Rightarrow> world \<Rightarrow> world" where
  "add_alert entry w =
     save_state (w\<lparr>state := (state w)\<lparr>alerts := take 200 (entry # alerts (state w))\<rparr>\<rparr>)"

section \<open>The processed cache and the path checks\<close>

definition PROCESSED_TTL :: real where
  "PROCESSED_TTL = 10"

text \<open>
  \<^verbatim>\<open>_is_recently_processed\<close>: a look-up under the cache lock. A hit younger than the TTL
  answers \<open>True\<close>; otherwise the entries older than five times the TTL are dropped and the
  answer is \<open>False\<close>. The path itself is never inserted here. A stored time of \<open>0.0\<close> is
  falsy in the source's test \<^verbatim>\<open>if last and ...\<close>.
\<close>

definition is_recently_processed :: "world \<Rightarrow> path \<Rightarrow> bool \<times> world" where
  "is_recently_processed w path =
     (let now = clock w;
          abs_path = path_lower path;
          swept = w\<lparr>processed_cache :=
                    (\<lambda>k. case processed_cache w k of
                            None \<Rightarrow> None
                          | Some t \<Rightarrow> if now - t > PROCESSED_TTL * 5 then None else Some t)\<rparr>
      in case processed_cache w abs_path of
           None \<Rightarrow> (False, swept)
         | Some seen \<Rightarrow>
             if seen \<noteq> 0 \<and> now - seen < PROCESSED_TTL then (True, w) else (False, swept))"

definition mark_processed :: "path \<Rightarrow> world \<Rightarrow> world" where
  "mark_processed path w =
     w\<lparr>processed_cache := (processed_cache w)(path_lower path \<mapsto> clock w)\<rparr>"

definition is_quarantine_path :: "config \<Rightarrow> path \<Rightarrow> bool" where
  "is_quarantine_path cfg path =
     (commonpath path (QUARANTINE_FOLDER cfg) = Some (QUARANTINE_FOLDER cfg))"

definition is_temp_test_path :: "config \<Rightarrow> filesystem \<Rightarrow> path \<Rightarrow> bool" where
  "is_temp_test_path cfg d path =
     (if exists_path d (TEMP_TEST_FOLDER cfg)
      then commonpath path (TEMP_TEST_FOLDER cfg) = Some (TEMP_TEST_FOLDER cfg)
      else False)"

definition is_whitelisted :: "config \<Rightarrow> world \<Rightarrow> path \<Rightarrow> bool" where
  "is_whitelisted cfg w filepath =
     (if is_quarantine_path cfg filepath then True
      else list_ex (\<lambda>e. commonpath e filepath = Some e) (whitelist (state w)))"

text \<open>The scope check at the head of \<^verbatim>\<open>_handle_file\<close>, and \<^verbatim>\<open>_identify_origin\<close>.\<close>

definition is_in_watched_dir :: "config \<Rightarrow> path \<Rightarrow> bool" where
  "is_in_watched_dir cfg path =
     list_ex (\<lambda>watch_path.
                commonpath (path_lower watch_path) (path_lower path) = Some (path_lower watch_path))
             (WATCH_PATHS cfg)"

definition identify_origin :: "config \<Rightarrow> path \<Rightarrow> path option" where
  "identify_origin cfg path =
     find (\<lambda>p. commonpath (path_lower p) (path_lower path) = Some (path_lower p))
          (WATCH_PATHS cfg)"

section \<open>Waiting for a stable file\<close>

text \<open>
  One poll of \<^verbatim>\<open>wait_for_file_stable\<close> opens the file and asks for its size; either
  may raise \<^verbatim>\<open>OSError\<close>.
\<close>

definition poll_size :: "filesystem \<Rightarrow> path \<Rightarrow> nat option" where
  "poll_size d path = (case open_read d path of None \<Rightarrow> None | Some c \<Rightarrow> getsize d path)"

text \<open>
  The loop of \<^verbatim>\<open>wait_for_file_stable\<close>. The file system may change while the loop
  sleeps, so it is read through \<open>env\<close>, the file system at each instant. The result is
  the returned flag and the clock at the return; \<open>None\<close> is a loop that never returns.
  \<^verbatim>\<open>time.sleep\<close> raises \<^verbatim>\<open>ValueError\<close> for a negative length, which the outer handler
  turns into \<open>False\<close>.
\<close>

partial_function (option) wait_loop ::
  "(real \<Rightarrow> filesystem) \<Rightarrow> path \<Rightarrow> real \<Rightarrow> real \<Rightarrow> real \<Rightarrow> real \<Rightarrow> int \<Rightarrow> nat
     \<Rightarrow> (bool \<times> real) option" where
  "wait_loop env path start timeout poll now last_size stable_count =
     (if now - start \<le> timeout then
        (if \<not> exists_path (env now) path then
           (if poll < 0 then Some (False, now)
            else wait_loop env path start timeout poll (now + poll) last_size stable_count)
         else
           (case poll_size (env now) path of
              None \<Rightarrow>
                (if poll < 0 then Some (False, now)
                 else wait_loop env path start timeout poll (now + poll) last_size 0)
            | Some sz \<Rightarrow>
                if int sz = last_size \<and> 0 < sz then
                  (if 3 \<le> stable_count + 1 then Some (True, now)
                   else if poll < 0 then Some (False, now)
                   else wait_loop env path start timeout poll (now + poll) (int sz)
                          (stable_count + 1))
                else if poll < 0 then Some (False, now)
                else wait_loop env path start timeout poll (now + poll) (int sz) 0))
      else Some (0 < last_size, now))"

definition wait_for_file_stable ::
  "(real \<Rightarrow> filesystem) \<Rightarrow> path \<Rightarrow> real \<Rightarrow> real \<Rightarrow> real \<Rightarrow> (bool \<times> real) option" where
  "wait_for_file_stable env path timeout poll start =
     wait_loop env path start timeout poll start (- 1) 0"

section \<open>Reading a file as text\<close>

text \<open>
  \<^verbatim>\<open>contains_sensitive_data\<close> opens the file with \<^verbatim>\<open>encoding="utf-8", errors="ignore"\<close>
  and calls \<^verbatim>\<open>f.read(5 * 1024 * 1024)\<close>: in text mode the argument counts decoded
  characters, not bytes. A file's content is its bytes; the text read from it is a list of
  code points. \<open>utf8_ignore\<close> is the decoder, which drops every byte sequence that is not
  well-formed UTF-8, and \<open>translate_newlines\<close> is the universal-newline translation that
  text mode applies before characters are counted.
\<close>

type_synonym unicode = "nat list"

definition is_continuation :: "nat \<Rightarrow> bool" where
  "is_continuation b = (128 \<le> b \<and> b \<le> 191)"

definition second_ok3 :: "nat \<Rightarrow> nat \<Rightarrow> bool" where
  "second_ok3 b b2 =
     (if b = 224 then 160 \<le> b2 \<and> b2 \<le> 191
      else if b = 237 then 128 \<le> b2 \<and> b2 \<le> 159
      else is_continuation b2)"

definition second_ok4 :: "nat \<Rightarrow> nat \<Rightarrow> bool" where
  "second_ok4 b b2 =
     (if b = 240 then 144 \<le> b2 \<and> b2 \<le> 191
      else if b = 244 then 128 \<le> b2 \<and> b2 \<le> 143
      else is_continuation b2)"

fun utf8_ignore :: "nat list \<Rightarrow> unicode" where
  "utf8_ignore [] = []"
| "utf8_ignore (b # rest) =
     (if b < 128 then b # utf8_ignore rest
      else if b < 194 then utf8_ignore rest
      else if b < 224 then
        (case rest of
           [] \<Rightarrow> []
         | b2 # r2 \<Rightarrow>
             if is_continuation b2 then ((b - 192) * 64 + (b2 - 128)) # utf8_ignore r2
             else utf8_ignore rest)
      else if b < 240 then
        (case rest of
           [] \<Rightarrow> []
         | b2 # r2 \<Rightarrow>
             if \<not> second_ok3 b b2 then utf8_ignore rest
             else
               (case r2 of
                  [] \<Rightarrow> []
                | b3 # r3 \<Rightarrow>
                    if is_continuation b3
                    then ((b - 224) * 4096 + (b2 - 128) * 64 + (b3 - 128)) # utf8_ignore r3
                    else utf8_ignore r2))
      else if b < 245 then
        (case rest of
           [] \<Rightarrow> []
         | b2 # r2 \<Rightarrow>
             if \<not> second_ok4 b b2 then utf8_ignore rest
             else
               (case r2 of
                  [] \<Rightarrow> []
                | b3 # r3 \<Rightarrow>
                    if \<not> is_continuation b3 then utf8_ignore r2
                    else
                      (case r3 of
                         [] \<Rightarrow> []
                       | b4 # r4 \<Rightarrow>
                           if is_continuation b4
                           then ((b - 240) * 262144 + (b2 - 128) * 4096 + (b3 - 128) * 64
                                   + (b4 - 128)) # utf8_ignore r4
                           else utf8_ignore r3)))
      else utf8_ignore rest)"

fun translate_newlines :: "unicode \<Rightarrow> unicode" where
  "translate_newlines [] = []"
| "translate_newlines (c # cs) =
     (if c = 13 then
        (case cs of
           [] \<Rightarrow> [10]
         | d # ds \<Rightarrow> if d = 10 then 10 # translate_newlines ds else 10 # translate_newlines cs)
      else c # translate_newlines cs)"

definition decode_text :: "string \<Rightarrow> unicode" where
  "decode_text bytes = translate_newlines (utf8_ignore (map of_char bytes))"

text \<open>\<^verbatim>\<open>f.read(5 * 1024 * 1024)\<close> on the file opened as text.\<close>

definition read_sample :: "string \<Rightarrow> unicode" where
  "read_sample bytes = take (5 * 1024 * 1024) (decode_text bytes)"

section \<open>Classification\<close>

definition bs :: char where
  "bs = CHR 0x5C"

text \<open>\<^verbatim>\<open>PATTERNS\<close>, in the order the dictionary is written and iterated.\<close>

definition PATTERNS :: "(string \<times> string) list" where
  "PATTERNS =
     [(''Aadhaar'',
         bs # ''b'' @ bs # ''d{4}'' @ bs # ''s'' @ bs # ''d{4}'' @ bs # ''s'' @ bs # ''d{4}''
           @ bs # ''b''),
      (''Email'', ''[a-zA-Z0-9._%+-]+@[a-zA-Z0-9.-]+'' @ bs # ''.[a-z]{2,}''),
      (''Credit Card'', bs # ''b(?:'' @ bs # ''d[ -]*?){13,16}'' @ bs # ''b''),
      (''Confidential'', bs # ''b(confidential|secret|restricted)'' @ bs # ''b'')]"

text \<open>
  The loop over \<^verbatim>\<open>PATTERNS.items()\<close>. The regular-expression engine is a parameter:
  \<open>findall pat content\<close> stands for \<^verbatim>\<open>re.findall(pat, content, re.IGNORECASE)\<close>,
  on the text read from the file.
\<close>

fun first_match ::
  "(string \<Rightarrow> unicode \<Rightarrow> unicode list) \<Rightarrow> (string \<times> string) list \<Rightarrow> unicode
     \<Rightarrow> string option" where
  "first_match findall [] c = None"
| "first_match findall ((label, pat) # ps) c =
     (if findall pat c \<noteq> [] then Some label else first_match findall ps c)"

text \<open>
  \<^verbatim>\<open>contains_sensitive_data\<close>. While it waits, no other process changes the disk. The
  result is the label (or \<open>None\<close>) and the world at the return, whose clock has advanced.
\<close>

definition contains_sensitive_data ::
  "config \<Rightarrow> (string \<Rightarrow> unicode \<Rightarrow> unicode list) \<Rightarrow> world \<Rightarrow> path
     \<Rightarrow> (string option \<times> world) option" where
  "contains_sensitive_data cfg findall w filepath =
     (if is_quarantine_path cfg filepath \<or> is_temp_test_path cfg (disk w) filepath
         \<or> looks_like_quarantine_name filepath then Some (None, w)
      else if \<not> exists_path (disk w) filepath then Some (None, w)
      else
        (case wait_for_file_stable (\<lambda>t. disk w) filepath 8 (1 / 2) (clock w) of
           None \<Rightarrow> None
         | Some (was_stable, t) \<Rightarrow>
             let w' = w\<lparr>clock := t\<rparr> in
             (case getsize (disk w') filepath of
                None \<Rightarrow> Some (None, w')
              | Some file_size \<Rightarrow>
                  (case open_read (disk w') filepath of
                     None \<Rightarrow> Some (None, w')
                   | Some c \<Rightarrow>
                       Some (first_match findall PATTERNS (read_sample c), w')))))"

section \<open>The event handler\<close>

text \<open>
  The branch \<^verbatim>\<open>if rule:\<close> of \<^verbatim>\<open>_handle_file\<close>: mark the path, record the alert under
  the current policy mode and, in block mode, move the file to the quarantine folder. A
  move that raises is logged and leaves the alert as it was recorded.
\<close>

definition act_on_match :: "config \<Rightarrow> world \<Rightarrow> path \<Rightarrow> string \<Rightarrow> world" where
  "act_on_match cfg w path r =
     (let w1 = mark_processed path w;
          fname = basename path;
          mode = (case policy_mode (state w1) of None \<Rightarrow> ''block'' | Some m \<Rightarrow> m);
          alert = \<lparr>alert_file = path, alert_rule = r, alert_time = clock w1,
                   alert_status = mode, alert_origin = identify_origin cfg path,
                   alert_original_path = Some path,
                   alert_file_size = getsize (disk w1) path\<rparr>;
          w2 = add_alert alert w1
      in if mode = ''block'' then
           (let dest = join (QUARANTINE_FOLDER cfg)
                         (str_int (py_int (clock w2)) @ ''_'' @ fname)
            in case shutil_move (disk w2) path dest of
                 None \<Rightarrow> w2
               | Some d' \<Rightarrow>
                   let w3 = w2\<lparr>disk := d'\<rparr>;
                       w4 = save_state
                              (w3\<lparr>state := (state w3)\<lparr>alerts :=
                                   (case alerts (state w3) of
                                      [] \<Rightarrow> []
                                    | a # rest \<Rightarrow> a\<lparr>alert_file := dest\<rparr> # rest)\<rparr>\<rparr>)
                   in mark_processed dest w4)
         else w2)"

text \<open>
  \<^verbatim>\<open>DLPHandler._handle_file\<close>; \<open>None\<close> is a run that never returns. The function is
  written in two parts: \<open>handle_file_rest\<close> is everything after the look-up in the
  processed cache, which is where the cache lock is released.
\<close>

definition handle_file_rest ::
  "config \<Rightarrow> (string \<Rightarrow> unicode \<Rightarrow> unicode list) \<Rightarrow> world \<Rightarrow> path \<Rightarrow> world option" where
  "handle_file_rest cfg findall w1 path =
     (let w2 = sleep (1 / 2) w1 in
      if \<not> exists_path (disk w2) path then Some (mark_processed path w2)
      else if is_whitelisted cfg w2 path then Some (mark_processed path w2)
      else if looks_like_quarantine_name path then Some (mark_processed path w2)
      else
        (case contains_sensitive_data cfg findall w2 path of
           None \<Rightarrow> None
         | Some (rule, w3) \<Rightarrow>
             (case rule of
                None \<Rightarrow> Some w3
              | Some r \<Rightarrow> if r = [] then Some w3 else Some (act_on_match cfg w3 path r))))"

definition handle_file ::
  "config \<Rightarrow> (string \<Rightarrow> unicode \<Rightarrow> unicode list) \<Rightarrow> world \<Rightarrow> path \<Rightarrow> world option" where
  "handle_file cfg findall w path =
     (if \<not> is_in_watched_dir cfg path then Some w
      else if is_temp_test_path cfg (disk w) path then Some w
      else if is_quarantine_path cfg path then Some w
      else
        (let (recent, w1) = is_recently_processed w path in
         if recent then Some w1
         else handle_file_rest cfg findall w1 path))"

section \<open>Restoring a quarantined file\<close>


section \<open>Polls as the stability wait sees them\<close>

text \<open>
  What one poll of the loop finds: no file, a file that cannot be read, or a size. The
  \<open>k\<close>-th poll happens at \<open>start + k * poll\<close>; \<open>history\<close> lists the first \<open>k\<close> polls,
  the latest first.
\<close>

datatype reading = Missing | Failed | Read nat

definition observe :: "filesystem \<Rightarrow> path \<Rightarrow> reading" where
  "observe d p =
     (if \<not> exists_path d p then Missing
      else case poll_size d p of None \<Rightarrow> Failed | Some sz \<Rightarrow> Read sz)"

definition history :: "(real \<Rightarrow> filesystem) \<Rightarrow> path \<Rightarrow> real \<Rightarrow> real \<Rightarrow> nat \<Rightarrow> reading list" where
  "history env path start poll k =
     rev (map (\<lambda>i. observe (env (start + real i * poll)) path) [0..<k])"

text \<open>The size read last (\<open>- 1\<close> when none was read), and the polls that found the file.\<close>

fun latest_size :: "reading list \<Rightarrow> int" where
  "latest_size [] = - 1"
| "latest_size (Read n # h) = int n"
| "latest_size (r # h) = latest_size h"

definition found :: "reading list \<Rightarrow> reading list" where
  "found h = filter (\<lambda>r. r \<noteq> Missing) h"

text \<open>The three latest polls that found the file all read the same non-zero size.\<close>

definition three_equal_readings :: "reading list \<Rightarrow> bool" where
  "three_equal_readings h = (\<exists>sz. 0 < sz \<and> take 3 (found h) = replicate 3 (Read sz))"

text \<open>The loop invariant: what \<open>last_size\<close> and \<open>stable_count\<close> say about the polls so far.\<close>

definition loop_inv :: "reading list \<Rightarrow> int \<Rightarrow> nat \<Rightarrow> bool" where
  "loop_inv h last_size cnt =
     (last_size = latest_size h \<and> (0 < cnt \<longrightarrow> 0 < last_size) \<and>
      take cnt (found h) = replicate cnt (Read (nat last_size)))"

definition loop_post ::
  "(real \<Rightarrow> filesystem) \<Rightarrow> path \<Rightarrow> real \<Rightarrow> real \<Rightarrow> real \<Rightarrow> bool \<times> real \<Rightarrow> bool" where
  "loop_post env path start timeout poll y =
     (\<exists>m. snd y = start + real m * poll \<and>
        (if snd y - start \<le> timeout
         then (fst y \<longrightarrow> three_equal_readings (history env path start poll (Suc m))) \<and>
              (\<not> fst y \<longrightarrow> poll < 0)
         else fst y = (0 < latest_size (history env path start poll m))))"

section \<open>A configuration and worlds to run the agent on\<close>

definition ex_cfg :: config where
  "ex_cfg =
     \<lparr>WATCH_FOLDER = [''c:'', ''watch''],
      WATCH_PATHS = [[''c:'', ''watch''], [''d:'']],
      QUARANTINE_FOLDER = [''c:'', ''dlp'', ''quarantine''],
      TEMP_TEST_FOLDER = [''c:'', ''dlp'', ''temp_test_files'']\<rparr>"

definition ex_report :: path where
  "ex_report = [''c:'', ''watch'', ''report.txt'']"

definition ex_content :: string where
  "ex_content = ''Contact: jane.doe42@example.org''"

definition ex_disk :: filesystem where
  "ex_disk =
     map_of [([''c:''], Dir), ([''c:'', ''watch''], Dir), ([''c:'', ''dlp''], Dir),
             ([''c:'', ''dlp'', ''quarantine''], Dir),
             (ex_report, File ex_content False)]"

definition ex_world :: "string \<Rightarrow> world" where
  "ex_world mode =
     \<lparr>disk = ex_disk, clock = 1700000000, processed_cache = Map.empty,
      state = \<lparr>policy_mode = Some mode, whitelist = [], alerts = []\<rparr>,
      state_file = None\<rparr>"

text \<open>An engine that finds the address in the example content, and one that finds nothing.\<close>

definition ex_findall :: "string \<Rightarrow> unicode \<Rightarrow> unicode list" where
  "ex_findall pat c =
     (if map_of PATTERNS ''Email'' = Some pat \<and> c = map of_char ex_content
      then [map of_char ''jane.doe42@example.org''] else [])"

definition no_findall :: "string \<Rightarrow> unicode \<Rightarrow> unicode list" where
  "no_findall pat c = []"



definition ex_quarantined :: path where
  "ex_quarantined = [''c:'', ''dlp'', ''quarantine'', ''1700000002_report.txt'']"

definition ex_alert :: "string \<Rightarrow> path \<Rightarrow> alert" where
  "ex_alert mode f =
     \<lparr>alert_file = f, alert_rule = ''Email'', alert_time = 1700000002, alert_status = mode,
      alert_origin = Some [''c:'', ''watch''], alert_original_path = Some ex_report,
      alert_file_size = Some 31\<rparr>"




text \<open>A file that grows by one byte between any two polls half a second apart.\<close>

definition ex_growing :: "real \<Rightarrow> filesystem" where
  "ex_growing t =
     map_of [(ex_report, File (replicate (nat \<lfloor>2 * t\<rfloor> + 1) CHR ''a'') False)]"

definition ex_locked_disk :: filesystem where
  "ex_locked_disk =
     map_of [([''c:''], Dir), ([''c:'', ''watch''], Dir),
             (ex_report, File ex_content True)]"

section \<open>Paths: containment\<close>








lemma commonpath_second_prefix: "commonpath p q = Some q \<Longrightarrow> prefix q p"
  by (cases p; cases q) (auto simp: commonpath_def split: if_splits, metis take_is_prefix)



lemma wait_loop_bounded:
  assumes "0 < poll"
  shows "start + timeout - now < real k * poll \<Longrightarrow>
         \<exists>b t. wait_loop env path start timeout poll now last_size cnt = Some (b, t) \<and> now \<le> t"
proof (induction k arbitrary: now last_size cnt)
  case 0
  then have "\<not> now - start \<le> timeout" by simp
  then show ?case by (subst wait_loop.simps) simp
next
  case (Suc k)
  have step: "start + timeout - (now + poll) < real k * poll"
    using Suc.prems by (simp add: algebra_simps)
  have ih: "\<exists>b t. wait_loop env path start timeout poll (now + poll) l c = Some (b, t) \<and> now \<le> t"
    for l c
  proof -
    from Suc.IH[OF step, of l c] obtain b t where
      "wait_loop env path start timeout poll (now + poll) l c = Some (b, t)" "now + poll \<le> t"
      by blast
    then show ?thesis using assms by auto
  qed
  show ?case
    by (subst wait_loop.simps) (use ih assms in \<open>auto split: option.splits\<close>)
qed

lemma wait_loop_terminates:
  assumes "0 < poll"
  shows "\<exists>b t. wait_loop env path start timeout poll now last_size cnt = Some (b, t) \<and> now \<le> t"
proof -
  obtain k :: nat where "start + timeout - now < real k * poll"
    using assms ex_less_of_nat_mult by blast
  then show ?thesis using wait_loop_bounded[OF assms] by blast
qed

lemma wait_for_file_stable_returns:
  "0 < poll \<Longrightarrow> \<exists>b t. wait_for_file_stable env path timeout poll start = Some (b, t) \<and> start \<le> t"
  unfolding wait_for_file_stable_def by (rule wait_loop_terminates)

lemma csd_guarded:
  "is_quarantine_path cfg p \<or> is_temp_test_path cfg (disk w) p \<or> looks_like_quarantine_name p
     \<or> \<not> exists_path (disk w) p
   \<Longrightarrow> contains_sensitive_data cfg findall w p = Some (None, w)"
  by (auto simp: contains_sensitive_data_def)

lemma csd_scan:
  assumes "\<not> is_quarantine_path cfg p" "\<not> is_temp_test_path cfg (disk w) p"
    "\<not> looks_like_quarantine_name p" "exists_path (disk w) p"
    "wait_for_file_stable (\<lambda>t. disk w) p 8 (1 / 2) (clock w) = Some (b, t)"
  shows "contains_sensitive_data cfg findall w p =
           Some (case open_read (disk w) p of None \<Rightarrow> None
                 | Some c \<Rightarrow> first_match findall PATTERNS (read_sample c),
                 w\<lparr>clock := t\<rparr>)"
  using assms
  by (auto simp: contains_sensitive_data_def Let_def getsize_def open_read_def exists_path_def
           split: option.splits node.splits)

lemma csd_returns:
  "\<exists>r t. contains_sensitive_data cfg findall w p = Some (r, w\<lparr>clock := t\<rparr>) \<and> clock w \<le> t
        \<and> (open_read (disk w) p = None \<longrightarrow> r = None)"
proof (cases "is_quarantine_path cfg p \<or> is_temp_test_path cfg (disk w) p
                \<or> looks_like_quarantine_name p \<or> \<not> exists_path (disk w) p")
  case True
  from csd_guarded[OF this] have "contains_sensitive_data cfg findall w p = Some (None, w\<lparr>clock := clock w\<rparr>)"
    by simp
  then show ?thesis by blast
next
  case False
  obtain b t where wt: "wait_for_file_stable (\<lambda>t. disk w) p 8 (1 / 2) (clock w) = Some (b, t)"
    and le: "clock w \<le> t"
    using wait_for_file_stable_returns[of "1 / 2" "\<lambda>t. disk w" p 8 "clock w"] by auto
  from False have g: "\<not> is_quarantine_path cfg p" "\<not> is_temp_test_path cfg (disk w) p"
    "\<not> looks_like_quarantine_name p" "exists_path (disk w) p" by auto
  show ?thesis
    using csd_scan[OF g wt, of findall] le by (auto split: option.splits)
qed

lemma first_match_label: "first_match findall PATTERNS c = Some r \<Longrightarrow> r \<noteq> []"
  by (auto simp: PATTERNS_def split: if_splits)


section \<open>The stability wait: what a return means\<close>

lemma history_Suc:
  "history env path start poll (Suc k) =
     observe (env (start + real k * poll)) path # history env path start poll k"
  by (simp add: history_def)

lemma wait_loop_char:
  assumes ret: "wait_loop env path start timeout poll now last_size cnt = Some y"
  shows "\<forall>k. now = start + real k * poll \<longrightarrow> loop_inv (history env path start poll k) last_size cnt
       \<longrightarrow> loop_post env path start timeout poll y"
proof (rule wait_loop.raw_induct
    [where P = "\<lambda>env path start timeout poll now last_size cnt y.
       \<forall>k. now = start + real k * poll \<longrightarrow> loop_inv (history env path start poll k) last_size cnt
         \<longrightarrow> loop_post env path start timeout poll y", OF _ ret], goal_cases)
  case (1 wait_loop env path start timeout poll now last_size cnt y)
  note step = "1"(2)
  show ?case
  proof (intro allI impI)
    fix k
    assume now: "now = start + real k * poll"
      and inv: "loop_inv (history env path start poll k) last_size cnt"
    let ?h = "history env path start poll k"
    have next_now: "now + poll = start + real (Suc k) * poll"
      using now by (simp add: algebra_simps)
    have hist: "history env path start poll (Suc k) = observe (env now) path # ?h"
      using now by (simp add: history_Suc)
    note IH = "1"(1)[rule_format, OF _ next_now]
    show "loop_post env path start timeout poll y"
    proof (cases "now - start \<le> timeout")
      case False
      with step have y: "y = (0 < last_size, now)" by simp
      show ?thesis
        unfolding loop_post_def using False now inv y
        by (auto simp: loop_inv_def intro!: exI[of _ k])
    next
      case in_time: True
      show ?thesis
      proof (cases "observe (env now) path")
        case Missing
        then have ex: "\<not> exists_path (env now) path"
          by (auto simp: observe_def split: if_splits option.splits)
        show ?thesis
        proof (cases "poll < 0")
          case True
          with step in_time ex have "y = (False, now)" by simp
          then show ?thesis unfolding loop_post_def using in_time now True
            by (auto intro!: exI[of _ k])
        next
          case False
          with step in_time ex
          have call: "wait_loop env path start timeout poll (now + poll) last_size cnt = Some y" by simp
          have "loop_inv (history env path start poll (Suc k)) last_size cnt"
            using inv by (auto simp add: hist Missing loop_inv_def found_def)
          from IH[OF call this] show ?thesis .
        qed
      next
        case Failed
        then have ex: "exists_path (env now) path" and ps: "poll_size (env now) path = None"
          by (auto simp: observe_def split: if_splits option.splits)
        show ?thesis
        proof (cases "poll < 0")
          case True
          with step in_time ex ps have "y = (False, now)" by simp
          then show ?thesis unfolding loop_post_def using in_time now True
            by (auto intro!: exI[of _ k])
        next
          case False
          with step in_time ex ps
          have call: "wait_loop env path start timeout poll (now + poll) last_size 0 = Some y" by simp
          have "loop_inv (history env path start poll (Suc k)) last_size 0"
            using inv by (auto simp add: hist Failed loop_inv_def found_def)
          from IH[OF call this] show ?thesis .
        qed
      next
        case (Read sz)
        then have ex: "exists_path (env now) path" and ps: "poll_size (env now) path = Some sz"
          by (auto simp: observe_def split: if_splits option.splits)
        show ?thesis
        proof (cases "int sz = last_size \<and> 0 < sz")
          case same: True
          show ?thesis
          proof (cases "3 \<le> cnt + 1")
            case True
            with step in_time ex ps same have y: "y = (True, now)" by simp
            have "take 2 (found ?h) = replicate 2 (Read sz)"
            proof -
              have "take 2 (take cnt (found ?h)) = take 2 (replicate cnt (Read (nat last_size)))"
                using inv by (simp add: loop_inv_def)
              moreover have "nat last_size = sz" using same by auto
              ultimately show ?thesis using True by (simp add: min_def)
            qed
            then have "take 3 (found (history env path start poll (Suc k))) = replicate 3 (Read sz)"
              by (simp add: hist Read found_def numeral_3_eq_3 numeral_2_eq_2)
            then have "three_equal_readings (history env path start poll (Suc k))"
              unfolding three_equal_readings_def using same by blast
            then show ?thesis unfolding loop_post_def using y in_time now
              by (auto intro!: exI[of _ k])
          next
            case few: False
            show ?thesis
            proof (cases "poll < 0")
              case True
              with step in_time ex ps same few have "y = (False, now)" by simp
              then show ?thesis unfolding loop_post_def using in_time now True
                by (auto intro!: exI[of _ k])
            next
              case False
              with step in_time ex ps same few
              have call: "wait_loop env path start timeout poll (now + poll) (int sz) (cnt + 1) = Some y"
                by simp
              have "nat last_size = sz" using same by auto
              then have "loop_inv (history env path start poll (Suc k)) (int sz) (cnt + 1)"
                using inv same by (auto simp add: hist Read loop_inv_def found_def)
              from IH[OF call this] show ?thesis .
            qed
          qed
        next
          case differ: False
          show ?thesis
          proof (cases "poll < 0")
            case True
            with step in_time ex ps differ have "y = (False, now)" by (simp split: if_splits)
            then show ?thesis unfolding loop_post_def using in_time now True
              by (auto intro!: exI[of _ k])
          next
            case False
            with step in_time ex ps differ
            have call: "wait_loop env path start timeout poll (now + poll) (int sz) 0 = Some y"
              by (simp split: if_splits)
            have "loop_inv (history env path start poll (Suc k)) (int sz) 0"
              by (simp add: hist Read loop_inv_def found_def)
            from IH[OF call this] show ?thesis .
          qed
        qed
      qed
    qed
  qed
qed


section \<open>The handler, step by step\<close>

lemma irp_fields:
  "disk (snd (is_recently_processed w p)) = disk w"
  "clock (snd (is_recently_processed w p)) = clock w"
  "state (snd (is_recently_processed w p)) = state w"
  "state_file (snd (is_recently_processed w p)) = state_file w"
  by (auto simp: is_recently_processed_def Let_def split: option.splits)

lemma irp_recent: "fst (is_recently_processed w p) \<Longrightarrow> snd (is_recently_processed w p) = w"
  by (auto simp: is_recently_processed_def Let_def split: option.splits if_splits)

lemma irp_hit:
  "processed_cache w (path_lower p) = Some t \<Longrightarrow> t \<noteq> 0 \<Longrightarrow> clock w - t < 10
     \<Longrightarrow> is_recently_processed w p = (True, w)"
  by (simp add: is_recently_processed_def Let_def PROCESSED_TTL_def)

lemma is_whitelisted_state:
  "state w' = state w \<Longrightarrow> is_whitelisted cfg w' p = is_whitelisted cfg w p"
  by (simp add: is_whitelisted_def)

text \<open>Every return of the handler before classification leaves disk and state alone.\<close>

lemma handle_file_unfold:
  "handle_file cfg findall w p =
     (if \<not> is_in_watched_dir cfg p \<or> is_temp_test_path cfg (disk w) p \<or> is_quarantine_path cfg p
      then Some w
      else if fst (is_recently_processed w p) then Some w
      else if \<not> exists_path (disk w) p \<or> is_whitelisted cfg w p \<or> looks_like_quarantine_name p
      then Some (mark_processed p (sleep (1 / 2) (snd (is_recently_processed w p))))
      else
        (case contains_sensitive_data cfg findall (sleep (1 / 2) (snd (is_recently_processed w p))) p of
           None \<Rightarrow> None
         | Some (rule, w3) \<Rightarrow>
             (case rule of
                None \<Rightarrow> Some w3
              | Some r \<Rightarrow> if r = [] then Some w3 else Some (act_on_match cfg w3 p r))))"
proof -
  let ?w1 = "snd (is_recently_processed w p)"
  have d: "disk (sleep (1 / 2) ?w1) = disk w" by (simp add: sleep_def irp_fields)
  have wl: "is_whitelisted cfg (sleep (1 / 2) ?w1) p = is_whitelisted cfg w p"
    by (rule is_whitelisted_state) (simp add: sleep_def irp_fields)
  show ?thesis
  proof (cases "fst (is_recently_processed w p)")
    case True
    then show ?thesis
      by (simp add: handle_file_def handle_file_rest_def Let_def case_prod_beta irp_recent)
  next
    case False
    then show ?thesis
      by (simp add: handle_file_def handle_file_rest_def Let_def case_prod_beta d wl)
  qed
qed


lemma quarantine_name_shape:
  assumes "basename p = ds @ CHR ''_'' # rest" "ds \<noteq> []" "\<forall>c\<in>set ds. is_digit c"
  shows "looks_like_quarantine_name p"
proof -
  have nd: "\<not> is_digit CHR ''_''" by (simp add: is_digit_def)
  have tw: "takeWhile is_digit (ds @ CHR ''_'' # rest) = ds"
    using assms(3) nd by (simp add: takeWhile_tail)
  have dw: "dropWhile is_digit (ds @ CHR ''_'' # rest) = CHR ''_'' # rest"
    using assms(3) nd by (simp add: dropWhile_append3)
  show ?thesis
    using assms(1,2) tw dw by (simp add: looks_like_quarantine_name_def)
qed


section \<open>The alert store\<close>

text \<open>
  C6. After every append the alert list has at most 200 entries and the new entry is its
  head, followed by the earlier entries in their order; when 200 entries were present the
  last (oldest) one is dropped and all the others stay, and below 200 nothing is dropped.
\<close>

theorem add_alert_keeps_newest_200:
  "length (alerts (state (add_alert e w))) \<le> 200 \<and>
   alerts (state (add_alert e w)) = e # take 199 (alerts (state w)) \<and>
   (length (alerts (state w)) = 200 \<longrightarrow>
      alerts (state (add_alert e w)) = e # butlast (alerts (state w))) \<and>
   (length (alerts (state w)) < 200 \<longrightarrow>
      alerts (state (add_alert e w)) = e # alerts (state w))"
  by (simp add: add_alert_def save_state_def butlast_conv_take)

theorem add_alert_keeps_newest_200_witness:
  "length (alerts (state ((ex_world ''warn'')
      \<lparr>state := \<lparr>policy_mode = None, whitelist = [],
                  alerts = replicate 200 (ex_alert ''warn'' ex_report)\<rparr>\<rparr>))) = 200 \<and>
   alerts (state (add_alert (ex_alert ''block'' ex_quarantined) ((ex_world ''warn'')
      \<lparr>state := \<lparr>policy_mode = None, whitelist = [],
                  alerts = replicate 200 (ex_alert ''warn'' ex_report)\<rparr>\<rparr>)))
     = ex_alert ''block'' ex_quarantined # replicate 199 (ex_alert ''warn'' ex_report)"
  using add_alert_keeps_newest_200 [of "ex_alert ''block'' ex_quarantined" "(ex_world ''warn'')
      \<lparr>state := \<lparr>policy_mode = None, whitelist = [],
                  alerts = replicate 200 (ex_alert ''warn'' ex_report)\<rparr>\<rparr>"]
  by (simp add: butlast_conv_take)

section \<open>The scope check\<close>



section \<open>Files that carry a quarantine name\<close>

text \<open>
  C8. A path whose base name starts with one or more digits followed by an underscore is
  never classified: the handler returns the same world for every regular-expression
  engine, with the disk, the alerts and the rest of the state untouched, after at most
  the half second before the checks. This holds wherever the path lies.
\<close>

theorem quarantine_named_never_processed:
  assumes "basename p = ds @ CHR ''_'' # rest" "ds \<noteq> []" "\<forall>c\<in>set ds. is_digit c"
  shows "\<exists>w'. (\<forall>findall. handle_file cfg findall w p = Some w') \<and> disk w' = disk w
           \<and> state w' = state w \<and> state_file w' = state_file w \<and> clock w' \<le> clock w + 1 / 2"
proof -
  have q: "looks_like_quarantine_name p" using assms by (rule quarantine_name_shape)
  let ?m = "mark_processed p (sleep (1 / 2) (snd (is_recently_processed w p)))"
  have m: "disk ?m = disk w" "state ?m = state w" "state_file ?m = state_file w"
    "clock ?m = clock w + 1 / 2"
    by (simp_all add: mark_processed_def sleep_def irp_fields)
  show ?thesis
  proof (cases "\<not> is_in_watched_dir cfg p \<or> is_temp_test_path cfg (disk w) p
                  \<or> is_quarantine_path cfg p \<or> fst (is_recently_processed w p)")
    case True
    then have "\<forall>findall. handle_file cfg findall w p = Some w"
      by (auto simp: handle_file_unfold)
    then show ?thesis by (intro exI[of _ w]) simp
  next
    case False
    then have "\<forall>findall. handle_file cfg findall w p = Some ?m"
      using q by (auto simp: handle_file_unfold)
    then show ?thesis using m by (intro exI[of _ ?m]) simp
  qed
qed

theorem quarantine_named_never_processed_witness:
  "basename [''c:'', ''watch'', ''1700000000_leftover.txt''] = ''1700000000'' @ CHR ''_'' # ''leftover.txt''
   \<and> list_all is_digit ''1700000000''
   \<and> is_in_watched_dir ex_cfg [''c:'', ''watch'', ''1700000000_leftover.txt'']
   \<and> (\<exists>w'. (\<forall>findall. handle_file ex_cfg findall (ex_world ''block'')
                 [''c:'', ''watch'', ''1700000000_leftover.txt''] = Some w')
          \<and> disk w' = disk (ex_world ''block'') \<and> state w' = state (ex_world ''block''))"
proof -
  have a: "basename [''c:'', ''watch'', ''1700000000_leftover.txt'']
             = ''1700000000'' @ CHR ''_'' # ''leftover.txt''"
    by (simp add: basename_def)
  have b: "''1700000000'' \<noteq> []" by simp
  have c: "\<forall>c\<in>set ''1700000000''. is_digit c" by (simp add: is_digit_def)
  have d: "list_all is_digit ''1700000000''" by (simp add: is_digit_def)
  have e: "is_in_watched_dir ex_cfg [''c:'', ''watch'', ''1700000000_leftover.txt'']"
    by (simp add: is_in_watched_dir_def ex_cfg_def commonpath_def path_lower_def lower_def
          lower_char_def)
  show ?thesis
    using a d e quarantine_named_never_processed [OF a b c, of ex_cfg "ex_world ''block''"]
    by blast
qed

section \<open>Moves, quiescent waits and the example world\<close>




lemma wait_loop_step_readable:
  assumes "now - start \<le> timeout" "d p = Some (File c False)" "0 \<le> poll"
  shows "wait_loop (\<lambda>u. d) p start timeout poll now last_size cnt =
           (if int (length c) = last_size \<and> c \<noteq> []
            then (if 2 \<le> cnt then Some (True, now)
                  else wait_loop (\<lambda>u. d) p start timeout poll (now + poll) (int (length c)) (cnt + 1))
            else wait_loop (\<lambda>u. d) p start timeout poll (now + poll) (int (length c)) 0)"
  using assms
  by (subst wait_loop.simps)
     (auto simp: exists_path_def poll_size_def open_read_def getsize_def)

lemma wait_quiescent_readable:
  assumes f: "d p = Some (File c False)" and ne: "c \<noteq> []" and p0: "0 \<le> poll"
    and fit: "3 * poll \<le> timeout"
  shows "wait_for_file_stable (\<lambda>u. d) p timeout poll start = Some (True, start + 3 * poll)"
proof -
  have t0: "start - start \<le> timeout" using p0 fit by simp
  have t1: "start + poll - start \<le> timeout" using p0 fit by simp
  have t2: "start + poll + poll - start \<le> timeout" using p0 fit by simp
  have t3: "start + poll + poll + poll - start \<le> timeout" using p0 fit by simp
  have "wait_loop (\<lambda>u. d) p start timeout poll start (- 1) 0
          = wait_loop (\<lambda>u. d) p start timeout poll (start + poll) (int (length c)) 0"
    by (subst wait_loop_step_readable[where d = d and p = p and c = c, OF t0 f p0]) simp
  also have "\<dots> = wait_loop (\<lambda>u. d) p start timeout poll (start + poll + poll) (int (length c)) 1"
    by (subst wait_loop_step_readable[where d = d and p = p and c = c, OF t1 f p0]) (simp add: ne)
  also have "\<dots> = wait_loop (\<lambda>u. d) p start timeout poll (start + poll + poll + poll) (int (length c)) 2"
    by (subst wait_loop_step_readable[where d = d and p = p and c = c, OF t2 f p0])
       (simp add: ne numeral_2_eq_2)
  also have "\<dots> = Some (True, start + poll + poll + poll)"
    by (subst wait_loop_step_readable[where d = d and p = p and c = c, OF t3 f p0]) (simp add: ne)
  finally show ?thesis by (simp add: wait_for_file_stable_def algebra_simps)
qed



lemma ex_report_eligible:
  "is_in_watched_dir ex_cfg ex_report"
  "\<not> is_temp_test_path ex_cfg (disk (ex_world m)) ex_report"
  "\<not> is_quarantine_path ex_cfg ex_report"
  "\<not> fst (is_recently_processed (ex_world m) ex_report)"
  "disk (ex_world m) ex_report = Some (File ex_content False)"
  "\<not> is_whitelisted ex_cfg (ex_world m) ex_report"
  "\<not> looks_like_quarantine_name ex_report"
  by (simp_all add: is_in_watched_dir_def is_temp_test_path_def is_quarantine_path_def
        is_recently_processed_def is_whitelisted_def looks_like_quarantine_name_def
        ex_cfg_def ex_report_def ex_world_def ex_disk_def commonpath_def path_lower_def
        lower_def lower_char_def exists_path_def basename_def is_digit_def Let_def)



lemma ex_decoded: "decode_text ex_content = map of_char ex_content"
  by (simp add: decode_text_def ex_content_def)

lemma ex_sample: "read_sample ex_content = map of_char ex_content"
  by (simp add: read_sample_def ex_decoded) (simp add: ex_content_def)

lemma ex_report_match:
  "first_match ex_findall PATTERNS (read_sample ex_content) = Some ''Email''"
  by (simp add: ex_sample ex_findall_def PATTERNS_def bs_def)


section \<open>Files that cannot be read\<close>

text \<open>
  C10. \<^verbatim>\<open>contains_sensitive_data\<close> always returns, and it returns no label for a path
  that does not exist or whose file cannot be opened and read; the handler then returns
  too, with the alerts and the rest of the state, and the disk, as they were: no alert,
  no warning record and no quarantine move.
\<close>

theorem unreadable_file_is_ignored:
  "(\<exists>r w'. contains_sensitive_data cfg findall w p = Some (r, w')
        \<and> (open_read (disk w) p = None \<longrightarrow> r = None))
   \<and> (open_read (disk w) p = None \<longrightarrow>
        (\<exists>w'. handle_file cfg findall w p = Some w' \<and> state w' = state w \<and> disk w' = disk w))"
proof
  show "\<exists>r w'. contains_sensitive_data cfg findall w p = Some (r, w')
          \<and> (open_read (disk w) p = None \<longrightarrow> r = None)"
    using csd_returns[of cfg findall w p] by auto
next
  let ?w2 = "sleep (1 / 2) (snd (is_recently_processed w p))"
  let ?m = "mark_processed p ?w2"
  have d2: "disk ?w2 = disk w" "state ?w2 = state w" by (simp_all add: sleep_def irp_fields)
  have m: "disk ?m = disk w" "state ?m = state w"
    by (simp_all add: mark_processed_def sleep_def irp_fields)
  show "open_read (disk w) p = None \<longrightarrow>
          (\<exists>w'. handle_file cfg findall w p = Some w' \<and> state w' = state w \<and> disk w' = disk w)"
  proof
    assume un: "open_read (disk w) p = None"
    obtain r t where r: "contains_sensitive_data cfg findall ?w2 p = Some (r, ?w2\<lparr>clock := t\<rparr>)"
      and none: "open_read (disk ?w2) p = None \<longrightarrow> r = None"
      using csd_returns[of cfg findall ?w2 p] by auto
    from none un have rn: "r = None" by (simp add: d2)
    have "handle_file cfg findall w p = Some w \<or> handle_file cfg findall w p = Some ?m
            \<or> handle_file cfg findall w p = Some (?w2\<lparr>clock := t\<rparr>)"
      by (simp add: handle_file_unfold r rn)
    then show "\<exists>w'. handle_file cfg findall w p = Some w' \<and> state w' = state w \<and> disk w' = disk w"
      using m d2 by auto
  qed
qed

theorem unreadable_file_is_ignored_witness:
  "open_read (disk ((ex_world ''block'')\<lparr>disk := ex_locked_disk\<rparr>)) ex_report = None
   \<and> (\<exists>w'. handle_file ex_cfg ex_findall ((ex_world ''block'')\<lparr>disk := ex_locked_disk\<rparr>) ex_report
               = Some w'
          \<and> state w' = state ((ex_world ''block'')\<lparr>disk := ex_locked_disk\<rparr>)
          \<and> disk w' = disk ((ex_world ''block'')\<lparr>disk := ex_locked_disk\<rparr>))"
proof -
  have h: "open_read (disk ((ex_world ''block'')\<lparr>disk := ex_locked_disk\<rparr>)) ex_report = None"
    by (simp add: open_read_def ex_locked_disk_def ex_report_def)
  show ?thesis
    using h unreadable_file_is_ignored
            [of ex_cfg ex_findall "(ex_world ''block'')\<lparr>disk := ex_locked_disk\<rparr>" ex_report]
    by blast
qed

section \<open>Classification\<close>




section \<open>Warn mode\<close>



section \<open>Block mode\<close>



section \<open>When the stability wait says stable\<close>

text \<open>
  C3, as the code has it. A call with a positive poll interval returns. When it returns
  before the timeout has elapsed, it returns \<open>True\<close> only if the three latest polls that
  found the file all read the same non-zero size, and it returns \<open>False\<close> only if the poll
  interval is negative: a poll that cannot open or size the file resets the count and
  the call goes on. When the timeout has elapsed, the call returns \<open>True\<close> exactly when
  the size read last is non-zero, whether or not three equal readings were seen, and
  \<open>False\<close> when it is zero or no size was ever read.
\<close>

theorem wait_for_file_stable_outcome:
  "(0 < poll \<longrightarrow> wait_for_file_stable env path timeout poll start \<noteq> None)
   \<and> (\<forall>b t. wait_for_file_stable env path timeout poll start = Some (b, t) \<longrightarrow>
         (\<exists>m. t = start + real m * poll
            \<and> (if t - start \<le> timeout
                then (b \<longrightarrow> three_equal_readings (history env path start poll (Suc m)))
                     \<and> (\<not> b \<longrightarrow> poll < 0)
                else b = (0 < latest_size (history env path start poll m)))))"
proof (intro conjI allI impI)
  assume "0 < poll"
  then show "wait_for_file_stable env path timeout poll start \<noteq> None"
    using wait_for_file_stable_returns[of poll env path timeout start] by auto
next
  fix b t
  assume ret: "wait_for_file_stable env path timeout poll start = Some (b, t)"
  then have run: "wait_loop env path start timeout poll start (- 1) 0 = Some (b, t)"
    by (simp add: wait_for_file_stable_def)
  have inv: "loop_inv (history env path start poll 0) (- 1) 0"
    by (simp add: loop_inv_def history_def)
  have "loop_post env path start timeout poll (b, t)"
    using wait_loop_char[OF run, rule_format, of 0] inv by simp
  then show "\<exists>m. t = start + real m * poll
            \<and> (if t - start \<le> timeout
                then (b \<longrightarrow> three_equal_readings (history env path start poll (Suc m)))
                     \<and> (\<not> b \<longrightarrow> poll < 0)
                else b = (0 < latest_size (history env path start poll m)))"
    unfolding loop_post_def by (simp only: fst_conv snd_conv)
qed

lemma ex_wait_stable:
  "wait_for_file_stable (\<lambda>u. ex_disk) ex_report 8 (1 / 2) 0 = Some (True, 3 / 2)"
proof -
  have f: "ex_disk ex_report = Some (File ex_content False)" by (simp add: ex_disk_def ex_report_def)
  have ne: "ex_content \<noteq> []" by (simp add: ex_content_def)
  show ?thesis
    using wait_quiescent_readable[where d = ex_disk and p = ex_report and c = ex_content
            and poll = "1 / 2" and timeout = 8 and start = 0, OF f ne]
    by simp
qed

theorem wait_for_file_stable_outcome_witness:
  "wait_for_file_stable (\<lambda>u. ex_disk) ex_report 8 (1 / 2) 0 = Some (True, 3 / 2)
   \<and> three_equal_readings (history (\<lambda>u. ex_disk) ex_report 0 (1 / 2) 4)"
proof -
  note T = wait_for_file_stable_outcome[of "1 / 2" "\<lambda>u. ex_disk" ex_report 8 0,
             THEN conjunct2, rule_format, OF ex_wait_stable]
  from T have "three_equal_readings (history (\<lambda>u. ex_disk) ex_report 0 (1 / 2) (Suc 3))"
    by simp
  with ex_wait_stable show ?thesis by (simp add: eval_nat_numeral)
qed

lemma ex_growing_polls:
  "exists_path (ex_growing u) ex_report"
  "poll_size (ex_growing u) ex_report = Some (nat \<lfloor>2 * u\<rfloor> + 1)"
  by (simp_all add: ex_growing_def exists_path_def poll_size_def open_read_def getsize_def)

theorem wait_for_file_stable_counterexample:
  "wait_for_file_stable ex_growing ex_report 1 (1 / 2) 0 = Some (True, 3 / 2)
   \<and> history ex_growing ex_report 0 (1 / 2) 3 = [Read 3, Read 2, Read 1]
   \<and> \<not> three_equal_readings (history ex_growing ex_report 0 (1 / 2) 3)"
proof -
  have "wait_loop ex_growing ex_report 0 1 (1 / 2) 0 (- 1) 0
          = wait_loop ex_growing ex_report 0 1 (1 / 2) (1 / 2) 1 0"
    by (subst wait_loop.simps) (simp add: ex_growing_polls)
  also have "\<dots> = wait_loop ex_growing ex_report 0 1 (1 / 2) 1 2 0"
    by (subst wait_loop.simps) (simp add: ex_growing_polls)
  also have "\<dots> = wait_loop ex_growing ex_report 0 1 (1 / 2) (3 / 2) 3 0"
    by (subst wait_loop.simps) (simp add: ex_growing_polls)
  also have "\<dots> = Some (True, 3 / 2)"
    by (subst wait_loop.simps) simp
  finally have run: "wait_for_file_stable ex_growing ex_report 1 (1 / 2) 0 = Some (True, 3 / 2)"
    by (simp add: wait_for_file_stable_def)
  have h: "history ex_growing ex_report 0 (1 / 2) 3 = [Read 3, Read 2, Read 1]"
    by (simp add: history_def observe_def ex_growing_polls eval_nat_numeral)
  have "\<not> three_equal_readings [Read 3, Read 2, Read 1]"
    by (simp add: three_equal_readings_def found_def eval_nat_numeral)
  with run h show ?thesis by simp
qed

section \<open>Restoring from quarantine\<close>






section \<open>Repeated events for one path\<close>

lemma irp_empty_cache:
  "processed_cache w = Map.empty \<Longrightarrow> is_recently_processed w p = (False, w)"
  by (simp add: is_recently_processed_def Let_def)

lemma act_on_match_mark:
  "processed_cache (act_on_match cfg w p r) (path_lower p) = Some (clock w)"
  "clock (act_on_match cfg w p r) = clock w"
  by (simp_all add: act_on_match_def Let_def add_alert_def save_state_def mark_processed_def
        split: option.splits)

lemma act_on_match_warn:
  assumes "policy_mode (state w) = Some m" "m \<noteq> ''block''"
  shows "act_on_match cfg w p r =
           add_alert \<lparr>alert_file = p, alert_rule = r, alert_time = clock w, alert_status = m,
                      alert_origin = identify_origin cfg p, alert_original_path = Some p,
                      alert_file_size = getsize (disk w) p\<rparr> (mark_processed p w)"
  using assms by (simp add: act_on_match_def Let_def mark_processed_def)

lemma handle_file_rest_scan:
  assumes "disk w p = Some (File c False)" "c \<noteq> []" "\<not> is_whitelisted cfg w p"
    "\<not> looks_like_quarantine_name p" "\<not> is_quarantine_path cfg p"
    "\<not> is_temp_test_path cfg (disk w) p"
  shows "handle_file_rest cfg findall w p =
           (case first_match findall PATTERNS (read_sample c) of
              None \<Rightarrow> Some (w\<lparr>clock := clock w + 2\<rparr>)
            | Some r \<Rightarrow> Some (act_on_match cfg (w\<lparr>clock := clock w + 2\<rparr>) p r))"
proof -
  let ?w2 = "sleep (1 / 2) w"
  have d: "disk ?w2 = disk w" and c: "clock ?w2 = clock w + 1 / 2" by (simp_all add: sleep_def)
  have wl: "\<not> is_whitelisted cfg ?w2 p"
    using assms(3) is_whitelisted_state[of ?w2 w cfg p] by (simp add: sleep_def)
  have ex: "exists_path (disk ?w2) p" using assms(1) by (simp add: exists_path_def d)
  have wt: "wait_for_file_stable (\<lambda>u. disk ?w2) p 8 (1 / 2) (clock ?w2)
              = Some (True, clock w + 2)"
    using wait_quiescent_readable[where d = "disk w" and p = p and c = c and poll = "1 / 2"
             and timeout = 8 and start = "clock w + 1 / 2", OF assms(1,2)]
    by (simp add: d c)
  have opn: "open_read (disk ?w2) p = Some c" using assms(1) by (simp add: open_read_def d)
  have w3: "?w2\<lparr>clock := clock w + 2\<rparr> = w\<lparr>clock := clock w + 2\<rparr>" by (simp add: sleep_def)
  have csd: "contains_sensitive_data cfg findall ?w2 p =
               Some (first_match findall PATTERNS (read_sample c),
                     w\<lparr>clock := clock w + 2\<rparr>)"
    using csd_scan[of cfg p ?w2 True "clock w + 2" findall] assms(4,5,6) ex wt opn
    by (simp add: d w3)
  show ?thesis
    using ex wl assms(4) csd first_match_label[of findall "read_sample c"]
    by (auto simp: handle_file_rest_def Let_def split: option.splits)
qed

lemma handle_file_recorded:
  assumes "handle_file cfg findall w p = Some w1" "state w1 \<noteq> state w"
  shows "\<exists>w3 r. w1 = act_on_match cfg w3 p r \<and> clock w + 1 / 2 \<le> clock w3"
proof -
  let ?w2 = "sleep (1 / 2) (snd (is_recently_processed w p))"
  have s2: "state ?w2 = state w" "clock ?w2 = clock w + 1 / 2"
    by (simp_all add: sleep_def irp_fields)
  have sm: "state (mark_processed p ?w2) = state w"
    by (simp add: mark_processed_def sleep_def irp_fields)
  obtain r t where csd: "contains_sensitive_data cfg findall ?w2 p = Some (r, ?w2\<lparr>clock := t\<rparr>)"
    and le: "clock ?w2 \<le> t"
    using csd_returns[of cfg findall ?w2 p] by auto
  have s3: "state (?w2\<lparr>clock := t\<rparr>) = state w" by (simp add: sleep_def irp_fields)
  from assms(1) have
    "w1 = w \<or> w1 = mark_processed p ?w2 \<or> w1 = ?w2\<lparr>clock := t\<rparr>
      \<or> (\<exists>l. w1 = act_on_match cfg (?w2\<lparr>clock := t\<rparr>) p l)"
    by (auto simp: handle_file_unfold csd split: if_splits option.splits)
  with assms(2) sm s3 obtain l where "w1 = act_on_match cfg (?w2\<lparr>clock := t\<rparr>) p l"
    by auto
  moreover have "clock w + 1 / 2 \<le> clock (?w2\<lparr>clock := t\<rparr>)" using le s2 by simp
  ultimately show ?thesis by blast
qed

lemma ex_world_fields:
  "disk (ex_world m) = ex_disk" "processed_cache (ex_world m) = Map.empty"
  "whitelist (state (ex_world m)) = []" "policy_mode (state (ex_world m)) = Some m"
  "alerts (state (ex_world m)) = []" "clock (ex_world m) = 1700000000"
  by (simp_all add: ex_world_def)

lemma ex_disk_report:
  "ex_disk ex_report = Some (File ex_content False)" "ex_content \<noteq> []"
  "\<not> exists_path ex_disk (TEMP_TEST_FOLDER ex_cfg)"
  by (simp_all add: ex_disk_def ex_report_def ex_content_def exists_path_def ex_cfg_def)

lemma ex_rest:
  assumes "disk w = ex_disk" "whitelist (state w) = []"
  shows "handle_file_rest ex_cfg findall w ex_report =
           (case first_match findall PATTERNS (read_sample ex_content) of
              None \<Rightarrow> Some (w\<lparr>clock := clock w + 2\<rparr>)
            | Some r \<Rightarrow> Some (act_on_match ex_cfg (w\<lparr>clock := clock w + 2\<rparr>) ex_report r))"
proof -
  have a: "disk w ex_report = Some (File ex_content False)"
    using assms(1) ex_disk_report(1) by simp
  have b: "\<not> is_whitelisted ex_cfg w ex_report"
    using assms(2) ex_report_eligible(3) by (simp add: is_whitelisted_def)
  have c: "\<not> is_temp_test_path ex_cfg (disk w) ex_report"
    using assms(1) ex_disk_report(3) by (simp add: is_temp_test_path_def)
  show ?thesis
    by (rule handle_file_rest_scan[OF a ex_disk_report(2) b ex_report_eligible(7)
               ex_report_eligible(3) c])
qed

lemma ex_warn_rest:
  assumes "disk w = ex_disk" "whitelist (state w) = []" "policy_mode (state w) = Some ''warn''"
  shows "\<exists>w'. handle_file_rest ex_cfg ex_findall w ex_report = Some w' \<and> disk w' = ex_disk
           \<and> whitelist (state w') = [] \<and> policy_mode (state w') = Some ''warn''
           \<and> map alert_file (alerts (state w'))
               = take 200 (ex_report # map alert_file (alerts (state w)))"
proof -
  let ?w3 = "w\<lparr>clock := clock w + 2\<rparr>"
  have run: "handle_file_rest ex_cfg ex_findall w ex_report
               = Some (act_on_match ex_cfg ?w3 ex_report ''Email'')"
    using ex_rest[OF assms(1,2), of ex_findall] ex_report_match by simp
  have m: "policy_mode (state ?w3) = Some ''warn''" using assms(3) by simp
  have w: "''warn'' \<noteq> ''block''" by simp
  show ?thesis
    unfolding run act_on_match_warn[OF m w]
    using assms
    by (simp add: add_alert_def save_state_def mark_processed_def take_map)
qed

lemma ex_warn_run:
  "handle_file ex_cfg ex_findall (ex_world ''warn'') ex_report
     = Some (act_on_match ex_cfg ((ex_world ''warn'')\<lparr>clock := 1700000002\<rparr>) ex_report ''Email'')"
proof -
  have rest: "handle_file_rest ex_cfg ex_findall (ex_world ''warn'') ex_report
     = Some (act_on_match ex_cfg ((ex_world ''warn'')\<lparr>clock := 1700000002\<rparr>) ex_report ''Email'')"
    using ex_rest[OF ex_world_fields(1)[of "''warn''"] ex_world_fields(3)[of "''warn''"],
        where findall = ex_findall]
      ex_report_match
    by (simp add: ex_world_fields)
  show ?thesis
    using ex_report_eligible(1) ex_report_eligible(2)[of "''warn''"] ex_report_eligible(3) rest
    by (simp add: handle_file_def irp_empty_cache ex_world_fields)
qed

text \<open>
  C5, as the code has it. The look-up in the processed cache never marks the path; the
  mark is set later, after the stability wait and the classification, and only when a
  rule matched. What holds is the sequential guarantee: once handling an event has
  recorded an alert for a path, a further event for that path whose look-up comes less
  than \<^verbatim>\<open>PROCESSED_TTL\<close> seconds after the mark is dropped, leaving the world as it was:
  no second alert and no second move.
\<close>

theorem repeated_event_is_dropped:
  assumes "handle_file cfg findall w p = Some w1"
    and "alerts (state w1) \<noteq> alerts (state w)"
    and "0 \<le> clock w" and "0 \<le> d" and "d < PROCESSED_TTL"
  shows "handle_file cfg findall' (w1\<lparr>clock := clock w1 + d\<rparr>) p
           = Some (w1\<lparr>clock := clock w1 + d\<rparr>)"
proof -
  from assms(2) have "state w1 \<noteq> state w" by auto
  from handle_file_recorded[OF assms(1) this] obtain w3 r where
    w1: "w1 = act_on_match cfg w3 p r" and le: "clock w + 1 / 2 \<le> clock w3" by blast
  let ?W = "w1\<lparr>clock := clock w1 + d\<rparr>"
  have c1: "clock w1 = clock w3" and m: "processed_cache w1 (path_lower p) = Some (clock w3)"
    using act_on_match_mark[of cfg w3 p r] w1 by simp_all
  have "processed_cache ?W (path_lower p) = Some (clock w3)" using m by simp
  moreover have "clock w3 \<noteq> 0" using le assms(3) by simp
  moreover have "clock ?W - clock w3 < 10" using c1 assms(5) by (simp add: PROCESSED_TTL_def)
  ultimately have "is_recently_processed ?W p = (True, ?W)" by (rule irp_hit)
  then show ?thesis by (simp add: handle_file_unfold)
qed

theorem repeated_event_is_dropped_witness:
  "handle_file ex_cfg ex_findall (ex_world ''warn'') ex_report
     = Some (act_on_match ex_cfg ((ex_world ''warn'')\<lparr>clock := 1700000002\<rparr>) ex_report ''Email'')
   \<and> alerts (state (act_on_match ex_cfg ((ex_world ''warn'')\<lparr>clock := 1700000002\<rparr>)
                       ex_report ''Email''))
       \<noteq> alerts (state (ex_world ''warn''))
   \<and> handle_file ex_cfg ex_findall
        ((act_on_match ex_cfg ((ex_world ''warn'')\<lparr>clock := 1700000002\<rparr>) ex_report ''Email'')
           \<lparr>clock := 1700000002 + 5\<rparr>) ex_report
       = Some ((act_on_match ex_cfg ((ex_world ''warn'')\<lparr>clock := 1700000002\<rparr>) ex_report ''Email'')
                 \<lparr>clock := 1700000002 + 5\<rparr>)"
proof -
  let ?w1 = "act_on_match ex_cfg ((ex_world ''warn'')\<lparr>clock := 1700000002\<rparr>) ex_report ''Email''"
  have m: "policy_mode (state ((ex_world ''warn'')\<lparr>clock := 1700000002\<rparr>)) = Some ''warn''"
    by (simp add: ex_world_fields)
  have w: "''warn'' \<noteq> ''block''" by simp
  have ch: "alerts (state ?w1) \<noteq> alerts (state (ex_world ''warn''))"
    unfolding act_on_match_warn[OF m w]
    by (simp add: add_alert_def save_state_def mark_processed_def ex_world_fields)
  have c0: "0 \<le> clock (ex_world ''warn'')" by (simp add: ex_world_fields)
  have d0: "(0::real) \<le> 5" and d1: "5 < PROCESSED_TTL" by (simp_all add: PROCESSED_TTL_def)
  have ck: "clock ?w1 = 1700000002" by (simp add: act_on_match_mark)
  show ?thesis
    using ex_warn_run ch
      repeated_event_is_dropped[OF ex_warn_run ch c0 d0 d1, of ex_findall]
    by (simp add: ck)
qed

text \<open>
  Two runs show what the look-up does not give. A file without sensitive content is
  never marked, so a second event right after the first passes the look-up again. And
  when two events for one matching file both pass the look-up before either goes on (the
  look-up leaves the world unchanged), running the rest of \<^verbatim>\<open>_handle_file\<close> for the one
  and then for the other records two alerts for the same file in warn mode.
\<close>

theorem dedup_counterexample:
  "handle_file ex_cfg no_findall (ex_world ''block'') ex_report
     = Some ((ex_world ''block'')\<lparr>clock := 1700000002\<rparr>)
   \<and> is_recently_processed ((ex_world ''block'')\<lparr>clock := 1700000002\<rparr>) ex_report
       = (False, (ex_world ''block'')\<lparr>clock := 1700000002\<rparr>)
   \<and> is_recently_processed (ex_world ''warn'') ex_report = (False, ex_world ''warn'')
   \<and> map_option (\<lambda>w. map alert_file (alerts (state w)))
        (Option.bind (handle_file_rest ex_cfg ex_findall (ex_world ''warn'') ex_report)
           (\<lambda>w. handle_file_rest ex_cfg ex_findall w ex_report))
       = Some [ex_report, ex_report]"
proof -
  have nm: "first_match no_findall PATTERNS (read_sample ex_content) = None"
    by (simp add: no_findall_def PATTERNS_def)
  have rest: "handle_file_rest ex_cfg no_findall (ex_world ''block'') ex_report
                = Some ((ex_world ''block'')\<lparr>clock := 1700000002\<rparr>)"
    using ex_rest[OF ex_world_fields(1)[of "''block''"] ex_world_fields(3)[of "''block''"],
        where findall = no_findall] nm
    by (simp add: ex_world_fields)
  have a: "handle_file ex_cfg no_findall (ex_world ''block'') ex_report
             = Some ((ex_world ''block'')\<lparr>clock := 1700000002\<rparr>)"
    using ex_report_eligible(1) ex_report_eligible(2)[of "''block''"] ex_report_eligible(3) rest
    by (simp add: handle_file_def irp_empty_cache ex_world_fields)
  have b: "is_recently_processed ((ex_world ''block'')\<lparr>clock := 1700000002\<rparr>) ex_report
             = (False, (ex_world ''block'')\<lparr>clock := 1700000002\<rparr>)"
    by (rule irp_empty_cache) (simp add: ex_world_fields)
  have c: "is_recently_processed (ex_world ''warn'') ex_report = (False, ex_world ''warn'')"
    by (rule irp_empty_cache) (simp add: ex_world_fields)
  from ex_warn_rest[OF ex_world_fields(1) ex_world_fields(3) ex_world_fields(4)]
  obtain w1 where w1: "handle_file_rest ex_cfg ex_findall (ex_world ''warn'') ex_report = Some w1"
    "disk w1 = ex_disk" "whitelist (state w1) = []" "policy_mode (state w1) = Some ''warn''"
    "map alert_file (alerts (state w1)) = take 200 (ex_report # map alert_file [])"
    by (auto simp: ex_world_fields)
  from ex_warn_rest[OF w1(2,3,4)]
  obtain w2 where w2: "handle_file_rest ex_cfg ex_findall w1 ex_report = Some w2"
    "map alert_file (alerts (state w2))
       = take 200 (ex_report # map alert_file (alerts (state w1)))"
    by auto
  have d: "map_option (\<lambda>w. map alert_file (alerts (state w)))
        (Option.bind (handle_file_rest ex_cfg ex_findall (ex_world ''warn'') ex_report)
           (\<lambda>w. handle_file_rest ex_cfg ex_findall w ex_report))
       = Some [ex_report, ex_report]"
    using w1(1,5) w2 by simp
  from a b c d show ?thesis by simp
qed

end
